theory Spec2Isabelle
  imports Main "HOL-Library.Word" "HOL-Library.Log_Nat" "HOL-Library.Finite_Map"
begin

section \<open>The schema of the binary transfer extension\<close>

text \<open>
  The data model of \<^verbatim>\<open>src/schema/binary-transfer-extension.ts\<close>. An interface is a
  record, a union of string literals is a datatype, and an optional field
  (\<^verbatim>\<open>field?: T\<close>) is an \<open>option\<close>, \<open>None\<close> standing for \<^verbatim>\<open>undefined\<close>.
\<close>

text \<open>\<^verbatim>\<open>type BinaryTransferMode = "stream" | "multipart" | "websocket-binary"\<close>\<close>

datatype BinaryTransferMode = Stream | Multipart | WebsocketBinary

text \<open>\<^verbatim>\<open>interface BinaryTransferCapability\<close>: sizes are byte counts.\<close>

record BinaryTransferCapability =
  supported :: bool
  maxBinarySize :: "nat option"
  supportedModes :: "BinaryTransferMode list"

text \<open>\<^verbatim>\<open>interface BinaryReference\<close>\<close>

record BinaryReference =
  ref_streamId :: string
  ref_size :: nat
  ref_checksum :: "string option"
  ref_mimeType :: string

text \<open>The \<^verbatim>\<open>type\<close> and \<^verbatim>\<open>transferMode\<close> tags of \<^verbatim>\<open>interface BinaryTransferContent\<close>.\<close>

datatype ContentType = ImageContent | AudioContent | BlobContent

datatype TransferModeTag = Base64 | Binary

record BinaryTransferContent =
  content_type :: ContentType
  transferMode :: "TransferModeTag option"
  content_mimeType :: string
  data :: "string option"
  binaryRef :: "BinaryReference option"

text \<open>
  \<^verbatim>\<open>interface BinaryStreamHeader\<close>. The \<^verbatim>\<open>magic\<close> field has the literal type
  \<^verbatim>\<open>[0x4D, 0x43, 0x50, 0x00]\<close>, so it is a constant. The source types the other fields
  as \<^verbatim>\<open>number\<close>, \<^verbatim>\<open>Uint8Array\<close> and \<^verbatim>\<open>bigint\<close>; their widths on the wire (\<^verbatim>\<open>uint32\<close>
  version and flags, \<^verbatim>\<open>uint64\<close> size) are the specification's.
\<close>

type_synonym byte = "8 word"

definition magic :: "byte list" where
  "magic = [0x4D, 0x43, 0x50, 0x00]"

record BinaryStreamHeader =
  hdr_version :: "32 word"
  hdr_streamId :: "byte list"
  hdr_size :: "64 word"
  hdr_flags :: "32 word option"

section \<open>The utility functions\<close>

text \<open>
  \<^verbatim>\<open>
  export function isBinaryTransfer(content: BinaryTransferContent): boolean {
    return content.transferMode === "binary" && content.binaryRef !== undefined;
  }
  \<close>
\<close>

definition isBinaryTransfer :: "BinaryTransferContent \<Rightarrow> bool" where
  "isBinaryTransfer content \<longleftrightarrow>
     transferMode content = Some Binary \<and> binaryRef content \<noteq> None"

subsection \<open>JavaScript numbers\<close>

text \<open>
  \<^verbatim>\<open>calculateBase64Overhead\<close> computes on \<^verbatim>\<open>number\<close>, the IEEE 754 binary64
  format: every operation returns the exact result rounded to the nearest double, ties
  to the even significand. A finite double is a rational, so a number is modelled as a
  \<open>rat\<close> and an operation as the exact operation followed by \<open>roundToDouble\<close>. A
  result that is not a finite double (an overflow to \<^verbatim>\<open>Infinity\<close>, the \<^verbatim>\<open>NaN\<close> of a
  division of zero by zero) is \<open>None\<close>.
\<close>

text \<open>The nearest integer, a tie going to the even one.\<close>

definition roundHalfEven :: "rat \<Rightarrow> int" where
  "roundHalfEven x =
     (let f = \<lfloor>x\<rfloor>; d = x - of_int f
      in if d < 1 / 2 then f else if 1 / 2 < d then f + 1 else if even f then f else f + 1)"

text \<open>\<open>\<lfloor>log\<^sub>2 x\<rfloor>\<close> of a positive rational, computed on integers.\<close>

definition ilog2 :: "rat \<Rightarrow> int" where
  "ilog2 x =
     (if 1 \<le> x then bitlen \<lfloor>x\<rfloor> - 1 else - bitlen (\<lceil>1 / x\<rceil> - 1))"

text \<open>\<open>2\<^sup>e\<close> for an integer exponent.\<close>

definition pow2 :: "int \<Rightarrow> rat" where
  "pow2 e = (if 0 \<le> e then 2 ^ nat e else 1 / 2 ^ nat (- e))"

text \<open>
  Rounding to binary64: the significand has 53 bits, so a value of magnitude in
  \<open>[2\<^sup>k, 2\<^sup>k\<^sup>+\<^sup>1)\<close> is rounded to a multiple of \<open>2\<^sup>k\<^sup>-\<^sup>5\<^sup>2\<close>; below the
  normal range the spacing stays \<open>2\<^sup>-\<^sup>1\<^sup>0\<^sup>7\<^sup>4\<close> (subnormals), and a result that reaches
  \<open>2\<^sup>1\<^sup>0\<^sup>2\<^sup>4\<close> overflows.
\<close>

definition roundToDouble :: "rat \<Rightarrow> rat option" where
  "roundToDouble x =
     (if x = 0 then Some 0
      else let a = \<bar>x\<bar>;
               e = max (ilog2 a - 52) (- 1074);
               r = of_int (roundHalfEven (a / pow2 e)) * pow2 e
           in if 2 ^ 1024 \<le> r then None else Some (sgn x * r))"

text \<open>The operators \<^verbatim>\<open>*\<close>, \<^verbatim>\<open>/\<close>, \<^verbatim>\<open>-\<close> and \<^verbatim>\<open>Math.ceil\<close> (which is exact on a double).\<close>

definition num_mul :: "rat \<Rightarrow> rat \<Rightarrow> rat option" where
  "num_mul a b = roundToDouble (a * b)"

definition num_div :: "rat \<Rightarrow> rat \<Rightarrow> rat option" where
  "num_div a b = (if b = 0 then None else roundToDouble (a / b))"

definition num_sub :: "rat \<Rightarrow> rat \<Rightarrow> rat option" where
  "num_sub a b = roundToDouble (a - b)"

definition math_ceil :: "rat \<Rightarrow> rat" where
  "math_ceil x = of_int \<lceil>x\<rceil>"

text \<open>
  \<^verbatim>\<open>
  export function calculateBase64Overhead(binarySize: number): number {
    // Base64 encoding increases size by approximately 4/3
    return Math.ceil(binarySize * 4 / 3) - binarySize;
  }
  \<close>
\<close>

definition calculateBase64Overhead :: "rat \<Rightarrow> rat option" where
  "calculateBase64Overhead binarySize =
     Option.bind (num_mul binarySize 4) (\<lambda>p.
     Option.bind (num_div p 3) (\<lambda>q.
     num_sub (math_ceil q) binarySize))"

text \<open>
  The overhead as the specification words it, in exact integer arithmetic:
  \<open>\<lceil>4 n / 3\<rceil> - n\<close>.
\<close>

definition exactOverhead :: "int \<Rightarrow> int" where
  "exactOverhead n = \<lceil>(4 * of_int n) / (3::rat)\<rceil> - n"

section \<open>The components the specification adds\<close>

text \<open>
  The repository declares the types above and the two utility functions; the Capability
  Negotiator, the Stream Registry and the stream adapter of the specification have no
  code in it. The definitions of this section are written from the specification.
\<close>

subsection \<open>Capability Negotiator\<close>

text \<open>
  Modelled from the spec: the \<^verbatim>\<open>EffectiveCapability\<close> that \<^verbatim>\<open>negotiate\<close> returns
  (section 4.1), with the fields \<^verbatim>\<open>supported\<close>, \<^verbatim>\<open>effectiveModes\<close> and
  \<^verbatim>\<open>maxBinarySize\<close>; the repository declares no such type.
\<close>

record EffectiveCapability =
  eff_supported :: bool
  effectiveModes :: "BinaryTransferMode list"
  eff_maxBinarySize :: "nat option"

text \<open>
  Modelled from the spec: the minimum of two optional bounds, ``treating an absent bound
  as unlimited'' (section 4.1); the repository has no negotiation code.
\<close>

definition minBound :: "nat option \<Rightarrow> nat option \<Rightarrow> nat option" where
  "minBound a b =
     (case a of
        None \<Rightarrow> b
      | Some x \<Rightarrow> (case b of None \<Rightarrow> Some x | Some y \<Rightarrow> Some (min x y)))"

text \<open>
  Modelled from the spec: \<^verbatim>\<open>negotiate(local, remote) -> EffectiveCapability\<close> of section
  4.1, which the repository does not implement:
  \<^verbatim>\<open>supported = local.supported AND remote.supported\<close>,
  \<^verbatim>\<open>effectiveModes = local.supportedModes \<inter> remote.supportedModes\<close>,
  \<^verbatim>\<open>maxBinarySize = min(local.maxBinarySize, remote.maxBinarySize)\<close>. The modes are
  arrays in the source, so the intersection keeps the local modes the remote list has.
\<close>

definition negotiate ::
  "BinaryTransferCapability \<Rightarrow> BinaryTransferCapability \<Rightarrow> EffectiveCapability" where
  "negotiate loc rem =
     \<lparr>eff_supported = (supported loc \<and> supported rem),
      effectiveModes = filter (\<lambda>m. m \<in> set (supportedModes rem)) (supportedModes loc),
      eff_maxBinarySize = minBound (maxBinarySize loc) (maxBinarySize rem)\<rparr>"

text \<open>
  Modelled from the spec: the size check \<^verbatim>\<open>size <= maxBinarySize\<close> of section 4.4 against
  an optional bound, an absent bound admitting every size.
\<close>

definition withinLimit :: "nat \<Rightarrow> nat option \<Rightarrow> bool" where
  "withinLimit n bound = (case bound of None \<Rightarrow> True | Some b \<Rightarrow> n \<le> b)"

subsection \<open>Stream Registry\<close>

text \<open>
  Modelled from the spec: the states \<^verbatim>\<open>Registered -> Active -> {Completed, Aborted}\<close> of
  a transfer (section 4.4) and the two outcomes \<^verbatim>\<open>finalize\<close> takes (section 4.2); the
  repository declares neither.
\<close>

datatype TransferState = Registered | Active | Completed | Aborted

datatype TransferOutcome = OutcomeCompleted | OutcomeAborted

text \<open>
  Modelled from the spec: the error taxonomy of section 7, with \<^verbatim>\<open>AlreadyTerminal\<close> of
  section 4.2; the repository declares no error type.
\<close>

datatype TransferError =
  CapabilityMismatch | PayloadTooLarge | DuplicateStreamId | NotFound
  | AlreadyTerminal | ChecksumMismatch | TransportFailure

text \<open>
  Modelled from the spec: the registry entry of section 3,
  \<^verbatim>\<open>{streamId, totalSize, bytesTransferred, state, mode, mimeType, expectedChecksum,
  createdAt, sourceOrSink}\<close>; the repository declares no such type.
\<close>

record TransferDescriptor =
  td_streamId :: string
  totalSize :: nat
  bytesTransferred :: nat
  state :: TransferState
  td_mode :: BinaryTransferMode
  td_mimeType :: string
  expectedChecksum :: "string option"
  createdAt :: nat
  sourceOrSink :: "byte list"

text \<open>
  Modelled from the spec: the registry is a ``table mapping stream identifiers to
  pending/active transfer descriptors'' (section 2), here a finite map.
\<close>

type_synonym StreamRegistry = "(string, TransferDescriptor) fmap"

text \<open>
  Modelled from the spec: the terminal states are \<^verbatim>\<open>Completed\<close> and \<^verbatim>\<open>Aborted\<close>
  (section 4.4), and an outcome names the one \<^verbatim>\<open>finalize\<close> moves to.
\<close>

definition terminal :: "TransferState \<Rightarrow> bool" where
  "terminal s \<longleftrightarrow> s = Completed \<or> s = Aborted"

fun outcomeState :: "TransferOutcome \<Rightarrow> TransferState" where
  "outcomeState OutcomeCompleted = Completed"
| "outcomeState OutcomeAborted = Aborted"

text \<open>
  Modelled from the spec: \<^verbatim>\<open>register(descriptor) -> streamId\<close> of section 4.2, absent from
  the repository. It ``fails with \<^verbatim>\<open>DuplicateStreamId\<close> if the generated id already
  exists'', never overwriting, and a descriptor is \<^verbatim>\<open>Registered\<close> on creation.
\<close>

definition register ::
  "TransferDescriptor \<Rightarrow> StreamRegistry \<Rightarrow> TransferError + string \<times> StreamRegistry" where
  "register d reg =
     (if td_streamId d |\<in>| fmdom reg then Inl DuplicateStreamId
      else Inr (td_streamId d, fmupd (td_streamId d) (d\<lparr>state := Registered\<rparr>) reg))"

text \<open>
  Modelled from the spec: \<^verbatim>\<open>lookup(streamId) -> descriptor or NotFound\<close> of section 4.2,
  absent from the repository.
\<close>

definition lookup :: "string \<Rightarrow> StreamRegistry \<Rightarrow> TransferError + TransferDescriptor" where
  "lookup sid reg = (case fmlookup reg sid of None \<Rightarrow> Inl NotFound | Some d \<Rightarrow> Inr d)"

text \<open>
  Modelled from the spec:
  \<^verbatim>\<open>updateProgress(streamId, bytesTransferred) -> ok or NotFound|AlreadyTerminal\<close> of
  section 4.2, absent from the repository. A descriptor is \<^verbatim>\<open>Active\<close> from the first
  chunk on, and ``terminal states are final and further \<^verbatim>\<open>updateProgress\<close> calls fail
  with \<^verbatim>\<open>AlreadyTerminal\<close>'' (section 4.4). The contract has no error for a count
  below the last one or above \<^verbatim>\<open>totalSize\<close>: the count is stored as the caller gives it.
\<close>

definition updateProgress ::
  "string \<Rightarrow> nat \<Rightarrow> StreamRegistry \<Rightarrow> TransferError + StreamRegistry" where
  "updateProgress sid n reg =
     (case fmlookup reg sid of
        None \<Rightarrow> Inl NotFound
      | Some d \<Rightarrow>
          if terminal (state d) then Inl AlreadyTerminal
          else Inr (fmupd sid (d\<lparr>bytesTransferred := n, state := Active\<rparr>) reg))"

text \<open>
  Modelled from the spec: \<^verbatim>\<open>finalize(streamId, outcome: Completed|Aborted) -> ok\<close> of
  section 4.2, absent from the repository. Its contract has no error: an unknown id
  and a descriptor that is already terminal (``terminal states are final'') leave the
  registry as it is.
\<close>

definition finalize :: "string \<Rightarrow> TransferOutcome \<Rightarrow> StreamRegistry \<Rightarrow> StreamRegistry" where
  "finalize sid outcome reg =
     (case fmlookup reg sid of
        None \<Rightarrow> reg
      | Some d \<Rightarrow>
          if terminal (state d) then reg
          else fmupd sid (d\<lparr>state := outcomeState outcome\<rparr>) reg)"

text \<open>
  Modelled from the spec: \<^verbatim>\<open>reap(idleThreshold)\<close> of section 4.2, absent from the
  repository: it ``removes any \<^verbatim>\<open>Registered\<close> or \<^verbatim>\<open>Active\<close> descriptor with no progress
  update within a configurable idle threshold'' (section 5) and produces the expired
  ids. The clock is outside the model: \<open>idle\<close> tells which descriptors have been idle
  for longer than the threshold, and \<open>expired\<close> which ids \<^verbatim>\<open>reap\<close> removes.
\<close>

definition expired :: "(TransferDescriptor \<Rightarrow> bool) \<Rightarrow> StreamRegistry \<Rightarrow> string \<Rightarrow> bool" where
  "expired idle reg sid =
     (case fmlookup reg sid of None \<Rightarrow> False | Some d \<Rightarrow> \<not> terminal (state d) \<and> idle d)"

definition reap ::
  "(TransferDescriptor \<Rightarrow> bool) \<Rightarrow> StreamRegistry \<Rightarrow> string fset \<times> StreamRegistry" where
  "reap idle reg =
     (ffilter (expired idle reg) (fmdom reg), fmfilter (\<lambda>sid. \<not> expired idle reg sid) reg)"

text \<open>
  Modelled from the spec: the mutating calls of the registry's contract (section 4.2)
  as values, and the registry after one call and after a sequence of calls. A call that
  fails leaves the registry unchanged.
\<close>

datatype RegistryCall =
  Register TransferDescriptor
  | UpdateProgress string nat
  | Finalize string TransferOutcome
  | Reap "TransferDescriptor \<Rightarrow> bool"

fun applyCall :: "RegistryCall \<Rightarrow> StreamRegistry \<Rightarrow> StreamRegistry" where
  "applyCall (Register d) reg = (case register d reg of Inl _ \<Rightarrow> reg | Inr (_, reg') \<Rightarrow> reg')"
| "applyCall (UpdateProgress sid n) reg =
     (case updateProgress sid n reg of Inl _ \<Rightarrow> reg | Inr reg' \<Rightarrow> reg')"
| "applyCall (Finalize sid outcome) reg = finalize sid outcome reg"
| "applyCall (Reap idle) reg = snd (reap idle reg)"

fun applyCalls :: "RegistryCall list \<Rightarrow> StreamRegistry \<Rightarrow> StreamRegistry" where
  "applyCalls [] reg = reg"
| "applyCalls (c # cs) reg = applyCalls cs (applyCall c reg)"

text \<open>
  Modelled from the spec: the order of the states in
  \<^verbatim>\<open>Registered -> Active -> {Completed, Aborted}\<close>.
\<close>

fun stateRank :: "TransferState \<Rightarrow> nat" where
  "stateRank Registered = 0"
| "stateRank Active = 1"
| "stateRank Completed = 2"
| "stateRank Aborted = 2"

subsection \<open>Stream adapter\<close>

text \<open>
  Modelled from the spec: the little-endian bytes of an unsigned integer, least
  significant byte first (``\<^verbatim>\<open>size: uint64 little-endian\<close>'', section 6), and the value
  such bytes denote; the repository has no serialisation code.
\<close>

fun leBytes :: "nat \<Rightarrow> nat \<Rightarrow> byte list" where
  "leBytes 0 n = []"
| "leBytes (Suc k) n = of_nat (n mod 256) # leBytes k (n div 256)"

fun leValue :: "byte list \<Rightarrow> nat" where
  "leValue [] = 0"
| "leValue (b # bs) = unat b + 256 * leValue bs"

text \<open>
  Modelled from the spec: the header of the stream transport (section 6),
  \<^verbatim>\<open>magic = 0x4D 0x43 0x50 0x00, version: uint32, streamId: 16 raw bytes,
  size: uint64 little-endian, optional flags: uint32\<close>; the repository declares the
  header's type and has no encoder. The specification gives the byte order of \<^verbatim>\<open>size\<close>
  only, so the four-byte encoding of \<^verbatim>\<open>version\<close> and \<^verbatim>\<open>flags\<close> is the parameter
  \<open>enc32\<close>.
\<close>

definition encodeHeader :: "(32 word \<Rightarrow> byte list) \<Rightarrow> BinaryStreamHeader \<Rightarrow> byte list" where
  "encodeHeader enc32 h =
     magic @ enc32 (hdr_version h) @ hdr_streamId h @ leBytes 8 (unat (hdr_size h))
       @ (case hdr_flags h of None \<Rightarrow> [] | Some f \<Rightarrow> enc32 f)"

text \<open>
  Modelled from the spec: the frame of one transfer in stream mode (section 4.3),
  \<^verbatim>\<open>magic | version | streamId | size | flags(optional) | payload\<close>, the header
  ``followed by exactly \<^verbatim>\<open>size\<close> payload bytes''; the repository has no stream adapter.
\<close>

definition streamFrame ::
  "(32 word \<Rightarrow> byte list) \<Rightarrow> 32 word \<Rightarrow> byte list \<Rightarrow> 32 word option \<Rightarrow> byte list \<Rightarrow> byte list" where
  "streamFrame enc32 version sid flags payload =
     encodeHeader enc32
       \<lparr>hdr_version = version, hdr_streamId = sid,
        hdr_size = of_nat (length payload), hdr_flags = flags\<rparr>
     @ payload"

subsection \<open>Example values\<close>

text \<open>A finished transfer, the UUID of the RFC's example and a little-endian \<open>enc32\<close>.\<close>

definition exampleDescriptor :: TransferDescriptor where
  "exampleDescriptor =
     \<lparr>td_streamId = ''s1'', totalSize = 9, bytesTransferred = 9, state = Completed,
      td_mode = Stream, td_mimeType = ''image/png'', expectedChecksum = None, createdAt = 0,
      sourceOrSink = []\<rparr>"

definition exampleStreamId :: "byte list" where
  "exampleStreamId =
     [0x55, 0x0e, 0x84, 0x00, 0xe2, 0x9b, 0x41, 0xd4, 0xa7, 0x16, 0x44, 0x66, 0x55, 0x44, 0x00, 0x00]"

definition le32 :: "32 word \<Rightarrow> byte list" where
  "le32 v = leBytes 4 (unat v)"

section \<open>Rounding lemmas\<close>

lemma roundHalfEven_of_int: "roundHalfEven (of_int k) = k"
  by (simp add: roundHalfEven_def)

lemma roundHalfEven_close: "\<bar>of_int (roundHalfEven y) - y\<bar> \<le> 1 / 2"
proof -
  have "of_int \<lfloor>y\<rfloor> \<le> y" and "y < of_int \<lfloor>y\<rfloor> + 1"
    by linarith+
  then show ?thesis
    by (auto simp: roundHalfEven_def Let_def)
qed

lemma bitlen_le: "k < 2 ^ w \<Longrightarrow> bitlen k \<le> int w"
  by (simp add: bitlen_def floorlog_le_iff nat_less_iff)

lemma bitlen_pos: "0 < k \<Longrightarrow> 1 \<le> bitlen k"
  using bitlen_eq_zero_iff [of k] bitlen_nonneg [of k] by linarith

lemma pow2_neg: "e \<le> 0 \<Longrightarrow> pow2 e = 1 / 2 ^ nat (- e)"
  by (auto simp: pow2_def)

lemma roundToDouble_int:
  assumes "0 < k" and "k < 2 ^ 1024" and "2 ^ nat (bitlen k - 53) dvd k"
  shows "roundToDouble (of_int k) = Some (of_int k)"
proof -
  define e where "e = max (bitlen k - 53) (- 1074)"
  have il: "ilog2 (of_int k) = bitlen k - 1"
    using assms(1) by (simp add: ilog2_def)
  have e: "e = bitlen k - 53"
    using bitlen_pos [OF assms(1)] by (simp add: e_def)
  have "\<exists>j. (of_int k :: rat) / pow2 e = of_int j \<and> of_int j * pow2 e = (of_int k :: rat)"
  proof (cases "0 \<le> e")
    case True
    from assms(3) obtain j where j: "k = 2 ^ nat e * j"
      unfolding e by (auto simp: dvd_def)
    show ?thesis
      using True by (intro exI [of _ j]) (simp add: pow2_def j)
  next
    case False
    then show ?thesis
      by (intro exI [of _ "k * 2 ^ nat (- e)"]) (simp add: pow2_def)
  qed
  then obtain j where j: "(of_int k :: rat) / pow2 e = of_int j" "of_int j * pow2 e = (of_int k :: rat)"
    by blast
  have "roundToDouble (of_int k) =
      (if (2::rat) ^ 1024 \<le> of_int k then None else Some (of_int k))"
    using assms(1) j
    by (simp add: roundToDouble_def il Let_def e_def [symmetric] roundHalfEven_of_int
        del: of_int_power_le_of_int_cancel_iff)
  moreover have "\<not> (2::rat) ^ 1024 \<le> of_int k"
    using assms(2) by (simp add: not_le)
  ultimately show ?thesis by simp
qed


lemma roundToDouble_close:
  assumes "1 \<le> x" and "x < 2 ^ 52"
  shows "\<exists>r. roundToDouble x = Some r \<and> \<bar>r - x\<bar> \<le> 1 / 4"
proof -
  define e where "e = max (bitlen \<lfloor>x\<rfloor> - 53) (- 1074)"
  define m where "m = nat (- e)"
  define r where "r = of_int (roundHalfEven (x * 2 ^ m)) / (2 ^ m :: rat)"
  have fl: "1 \<le> \<lfloor>x\<rfloor>" "\<lfloor>x\<rfloor> < 2 ^ 52"
    using assms by (simp_all add: le_floor_iff floor_less_iff)
  have il: "ilog2 x = bitlen \<lfloor>x\<rfloor> - 1"
    using assms(1) by (simp add: ilog2_def)
  have "bitlen \<lfloor>x\<rfloor> \<le> 52" "1 \<le> bitlen \<lfloor>x\<rfloor>"
    using bitlen_le [OF fl(2)] bitlen_pos [of "\<lfloor>x\<rfloor>"] fl(1) by simp_all
  then have e: "e \<le> - 1" by (simp add: e_def)
  then have m: "1 \<le> m" by (simp add: m_def)
  have p: "pow2 e = 1 / 2 ^ m"
    using e by (simp add: pow2_neg m_def)
  have "(2::rat) ^ 1 \<le> 2 ^ m"
    using m by (intro power_increasing) simp_all
  then have two: "(2::rat) \<le> 2 ^ m" by simp
  have "r - x = (of_int (roundHalfEven (x * 2 ^ m)) - x * 2 ^ m) / 2 ^ m"
    by (simp add: r_def diff_divide_distrib)
  then have "\<bar>r - x\<bar> = \<bar>of_int (roundHalfEven (x * 2 ^ m)) - x * 2 ^ m\<bar> / 2 ^ m"
    by (simp only: abs_divide) simp
  also have "\<dots> \<le> (1 / 2) / 2 ^ m"
    by (intro divide_right_mono roundHalfEven_close) simp
  also have "\<dots> \<le> (1 / 2) / 2"
    using two by (intro divide_left_mono) simp_all
  finally have close: "\<bar>r - x\<bar> \<le> 1 / 4" by simp
  have "r < 2 ^ 52 + 1"
    using close assms(2) by linarith
  also have "\<dots> < (2::rat) ^ 1024" by simp
  finally have small: "\<not> 2 ^ 1024 \<le> r" by simp
  have "x \<noteq> 0" "\<bar>x\<bar> = x" "sgn x = 1"
    using assms(1) by simp_all
  then have "roundToDouble x = (if 2 ^ 1024 \<le> r then None else Some r)"
    by (simp add: roundToDouble_def il Let_def e_def [symmetric] p r_def)
  with small close show ?thesis by simp
qed

lemma ceiling_near_third:
  fixes r :: rat
  assumes "\<bar>r - of_int a / 3\<bar> \<le> 1 / 4" and "\<not> 3 dvd a"
  shows "\<lceil>r\<rceil> = \<lceil>of_int a / (3::rat)\<rceil>"
proof -
  define q where "q = a div 3"
  define t where "t = a mod 3"
  have a: "a = 3 * q + t" by (simp add: q_def t_def)
  have t: "t = 1 \<or> t = 2"
    using assms(2) unfolding t_def by presburger
  have x: "of_int a / (3::rat) = of_int q + of_int t / 3"
    by (simp add: a field_simps)
  have "\<lceil>of_int a / (3::rat)\<rceil> = q + 1"
    using t by (intro ceiling_unique) (auto simp: x)
  moreover have "\<lceil>r\<rceil> = q + 1"
  proof (rule ceiling_unique)
    have "- (1 / 4) \<le> r - of_int a / 3" and "r - of_int a / 3 \<le> 1 / 4"
      using assms(1) by linarith+
    moreover have "of_int t / (3::rat) = 1 / 3 \<or> of_int t / (3::rat) = 2 / 3"
      using t by auto
    ultimately show "of_int (q + 1) - 1 < r" and "r \<le> of_int (q + 1)"
      unfolding x by auto
  qed
  ultimately show ?thesis by simp
qed

lemma exactOverhead_div: "exactOverhead n = (n + 2) div 3"
proof -
  have "\<lceil>(4 * of_int n) / (3::rat)\<rceil> = \<lceil>of_int (4 * n) / (of_int 3 :: rat)\<rceil>"
    by simp
  also have "\<dots> = - (- (4 * n) div 3)"
    by (rule ceiling_divide_eq_div)
  finally show ?thesis
    unfolding exactOverhead_def by presburger
qed

lemma overhead_is_exactOverhead:
  assumes "0 \<le> n" and "n < 3 * 2 ^ 50"
  shows "calculateBase64Overhead (of_int n) = Some (of_int (exactOverhead n))"
proof (cases "n = 0")
  case True
  then show ?thesis
    by (simp add: calculateBase64Overhead_def num_mul_def num_div_def num_sub_def
        math_ceil_def roundToDouble_def exactOverhead_def)
next
  case False
  with assms have pos: "0 < n" by simp
  have n52: "n < 2 ^ 52" using assms(2) by simp
  text \<open>The product by four is exact.\<close>
  have "bitlen (n * 2 ^ 2) = bitlen n + 2"
    using bitlen_pow2 [of n 2] pos by simp
  then have b4: "bitlen (4 * n) \<le> 54"
    using bitlen_le [OF n52] by (simp add: mult.commute)
  have "nat (bitlen (4 * n) - 53) = 0 \<or> nat (bitlen (4 * n) - 53) = 1"
    using b4 by linarith
  then have "2 ^ nat (bitlen (4 * n) - 53) dvd 4 * n"
    by auto
  moreover have "4 * n < 2 ^ 1024" using n52 by simp
  ultimately have mul: "num_mul (of_int n) 4 = Some (of_int (4 * n))"
    using pos roundToDouble_int [of "4 * n"] by (simp add: num_mul_def mult.commute)
  text \<open>The quotient by three is rounded, but not across an integer.\<close>
  have "\<exists>q. num_div (of_int (4 * n)) 3 = Some q \<and> \<lceil>q\<rceil> = \<lceil>of_int (4 * n) / (3::rat)\<rceil>"
  proof (cases "3 dvd 4 * n")
    case True
    then obtain j where j: "4 * n = 3 * j" by (auto simp: dvd_def)
    have "0 < j" "j < 2 ^ 52" using j pos assms(2) by simp_all
    then have "nat (bitlen j - 53) = 0"
      using bitlen_le [of j 52] by simp
    then have "roundToDouble (of_int j) = Some (of_int j)"
      using \<open>0 < j\<close> \<open>j < 2 ^ 52\<close> by (intro roundToDouble_int) simp_all
    moreover have "of_int (4 * n) / (3::rat) = of_int j"
      by (simp add: j)
    ultimately show ?thesis
      by (simp add: num_div_def)
  next
    case False
    have "1 \<le> of_int (4 * n) / (3::rat)" "of_int (4 * n) / (3::rat) < 2 ^ 52"
      using pos assms(2) by simp_all
    from roundToDouble_close [OF this] obtain r
      where r: "roundToDouble (of_int (4 * n) / 3) = Some r"
          "\<bar>r - of_int (4 * n) / 3\<bar> \<le> 1 / 4"
      by blast
    from ceiling_near_third [OF r(2) False] r(1) show ?thesis
      by (simp add: num_div_def)
  qed
  then obtain q where q: "num_div (of_int (4 * n)) 3 = Some q"
      "\<lceil>q\<rceil> = \<lceil>of_int (4 * n) / (3::rat)\<rceil>"
    by blast
  text \<open>The difference of two integers below \<open>2 ^ 53\<close> is exact.\<close>
  have c: "\<lceil>q\<rceil> - n = exactOverhead n"
    by (simp add: q(2) exactOverhead_def)
  have d: "0 < exactOverhead n" "exactOverhead n < 2 ^ 52"
    using pos n52 unfolding exactOverhead_div by simp_all
  then have "nat (bitlen (exactOverhead n) - 53) = 0"
    using bitlen_le [of "exactOverhead n" 52] by simp
  then have "roundToDouble (of_int (exactOverhead n)) = Some (of_int (exactOverhead n))"
    using d by (intro roundToDouble_int) simp_all
  then have sub: "num_sub (math_ceil q) (of_int n) = Some (of_int (exactOverhead n))"
    by (simp add: num_sub_def math_ceil_def c [symmetric])
  show ?thesis
    using mul q(1) sub by (simp add: calculateBase64Overhead_def)
qed



lemma bitlen_eq: "2 ^ w \<le> k \<Longrightarrow> k < 2 ^ Suc w \<Longrightarrow> bitlen k = int (Suc w)"
proof -
  assume a: "2 ^ w \<le> k" "k < 2 ^ Suc w"
  have "bitlen k \<le> int (Suc w)" using a(2) by (rule bitlen_le)
  moreover have "Suc w \<le> floorlog 2 (nat k)"
    using a(1) by (intro floorlog_ge_SucI) (simp_all add: le_nat_iff)
  ultimately show ?thesis by (simp add: bitlen_def)
qed

lemma calculateBase64Overhead_bound_sharp:
  "calculateBase64Overhead (3 * 2 ^ 50 + 1) = Some 1125899906842624 \<and>
   \<lceil>(4 * (3 * 2 ^ 50 + 1)) / (3::rat)\<rceil> - (3 * 2 ^ 50 + 1) = 1125899906842625"
proof -
  have b1: "bitlen 13510798882111492 = 54"
    using bitlen_eq [of 53 13510798882111492] by simp
  have b2: "bitlen 4503599627370497 = 53"
    using bitlen_eq [of 52 4503599627370497] by simp
  have f: "\<lfloor>(13510798882111492::rat) / 3\<rfloor> = 4503599627370497"
    by (rule floor_unique) simp_all
  have c: "\<lceil>(13510798882111492::rat) / 3\<rceil> = 4503599627370498"
    by (rule ceiling_unique) simp_all
  have mul: "num_mul (3 * 2 ^ 50 + 1) 4 = Some 13510798882111492"
    by (simp add: num_mul_def roundToDouble_def ilog2_def b1 pow2_def roundHalfEven_def)
  have dv: "num_div 13510798882111492 3 = Some 4503599627370497"
    by (simp add: num_div_def roundToDouble_def ilog2_def f b2 pow2_def roundHalfEven_def)
  have sb: "num_sub (math_ceil 4503599627370497) (3 * 2 ^ 50 + 1) = Some 1125899906842624"
    using bitlen_eq [of 50 1125899906842624]
    by (simp add: num_sub_def math_ceil_def roundToDouble_def ilog2_def pow2_def roundHalfEven_def)
  show ?thesis
    using mul dv sb c by (simp add: calculateBase64Overhead_def)
qed

section \<open>Lemmas on the specified components\<close>

lemma negotiate_modes:
  "set (effectiveModes (negotiate l r)) = set (supportedModes l) \<inter> set (supportedModes r)"
  by (auto simp: negotiate_def)

lemma withinLimit_minBound:
  "withinLimit n (minBound a b) \<longleftrightarrow> withinLimit n a \<and> withinLimit n b"
  by (auto simp: withinLimit_def minBound_def split: option.splits)

lemma applyCall_terminal:
  assumes "fmlookup reg sid = Some d" and "terminal (state d)"
  shows "fmlookup (applyCall c reg) sid = Some d"
proof (cases c)
  case (Register d')
  then show ?thesis
    using assms(1) by (auto simp: register_def fmdomI split: if_splits)
next
  case (UpdateProgress sid' n)
  then show ?thesis
    using assms by (auto simp: updateProgress_def split: option.splits)
next
  case (Finalize sid' outcome)
  then show ?thesis
    using assms by (auto simp: finalize_def split: option.splits)
next
  case (Reap idle)
  then show ?thesis
    using assms by (simp add: reap_def expired_def)
qed

lemma applyCalls_terminal:
  "fmlookup reg sid = Some d \<Longrightarrow> terminal (state d) \<Longrightarrow>
   fmlookup (applyCalls cs reg) sid = Some d"
  by (induction cs arbitrary: reg) (simp_all add: applyCall_terminal)

lemma applyCall_forward:
  assumes "fmlookup reg sid = Some d" and "fmlookup (applyCall c reg) sid = Some d'"
  shows "stateRank (state d) \<le> stateRank (state d')"
proof (cases c)
  case (Register d0)
  then show ?thesis
    using assms by (auto simp: register_def fmdomI split: if_splits)
next
  case (UpdateProgress sid' n)
  then show ?thesis
    using assms
    by (cases "state d") (auto simp: updateProgress_def terminal_def split: option.splits if_splits)
next
  case (Finalize sid' outcome)
  then show ?thesis
    using assms
    by (cases "state d"; cases outcome)
      (auto simp: finalize_def terminal_def split: option.splits if_splits)
next
  case (Reap idle)
  then show ?thesis
    using assms by (auto simp: reap_def split: if_splits)
qed

lemma applyCall_created:
  assumes "fmlookup reg sid = None" and "fmlookup (applyCall c reg) sid = Some d'"
  shows "state d' = Registered"
proof (cases c)
  case (Register d0)
  then show ?thesis
    using assms by (auto simp: register_def split: if_splits)
next
  case (UpdateProgress sid' n)
  then show ?thesis
    using assms by (auto simp: updateProgress_def split: option.splits if_splits)
next
  case (Finalize sid' outcome)
  then show ?thesis
    using assms by (auto simp: finalize_def split: option.splits if_splits)
next
  case (Reap idle)
  then show ?thesis
    using assms by (auto simp: reap_def split: if_splits)
qed


lemma updateProgress_active:
  assumes "fmlookup reg sid = Some d" and "\<not> terminal (state d)"
  shows "\<exists>reg' d'. updateProgress sid n reg = Inr reg' \<and> fmlookup reg' sid = Some d' \<and>
           state d' = Active"
  using assms by (simp add: updateProgress_def)

lemma updateProgress_terminal:
  "fmlookup reg sid = Some d \<Longrightarrow> terminal (state d) \<Longrightarrow>
   updateProgress sid n reg = Inl AlreadyTerminal"
  by (simp add: updateProgress_def)

lemma length_leBytes: "length (leBytes k n) = k"
  by (induction k arbitrary: n) simp_all

lemma leValue_leBytes: "leValue (leBytes k n) = n mod 256 ^ k"
proof (induction k arbitrary: n)
  case 0
  then show ?case by simp
next
  case (Suc k)
  have "unat (of_nat (n mod 256) :: byte) = n mod 256"
    by (simp add: unat_of_nat)
  then show ?case
    by (simp add: Suc.IH mod_mult2_eq)
qed


section \<open>Classification of content\<close>

text \<open>
  Claim C1. Content whose \<^verbatim>\<open>transferMode\<close> tag is absent is never classified as a
  binary transfer, whatever its other fields hold: \<open>isBinaryTransfer\<close> is a total
  boolean function (it has no error result) and answers \<open>False\<close> there, so such content
  is left to the base64 reading. Conversely, content classified as a binary transfer
  has the tag present and equal to \<^verbatim>\<open>"binary"\<close>.
\<close>

theorem absent_transferMode_is_base64:
  "(transferMode c = None \<longrightarrow> \<not> isBinaryTransfer c) \<and>
   (isBinaryTransfer c \<longrightarrow> transferMode c = Some Binary)"
  by (simp add: isBinaryTransfer_def)

theorem absent_transferMode_is_base64_witness:
  "transferMode \<lparr>content_type = ImageContent, transferMode = None,
       content_mimeType = ''image/png'', data = Some ''iVBORw0KGgo='', binaryRef = None\<rparr> = None \<and>
   \<not> isBinaryTransfer \<lparr>content_type = ImageContent, transferMode = None,
       content_mimeType = ''image/png'', data = Some ''iVBORw0KGgo='', binaryRef = None\<rparr>"
  using absent_transferMode_is_base64
    [of "\<lparr>content_type = ImageContent, transferMode = None,
       content_mimeType = ''image/png'', data = Some ''iVBORw0KGgo='', binaryRef = None\<rparr>"]
  by simp

text \<open>
  Claim C9. \<open>isBinaryTransfer c\<close> holds exactly when the tag is \<^verbatim>\<open>"binary"\<close> and a
  \<^verbatim>\<open>binaryRef\<close> is present. Content tagged \<^verbatim>\<open>"binary"\<close> that carries no reference is
  answered with \<open>False\<close>.
\<close>

theorem isBinaryTransfer_iff:
  "(isBinaryTransfer c \<longleftrightarrow> transferMode c = Some Binary \<and> (\<exists>r. binaryRef c = Some r)) \<and>
   \<not> isBinaryTransfer (c\<lparr>transferMode := Some Binary, binaryRef := None\<rparr>)"
  by (simp add: isBinaryTransfer_def)

section \<open>Capability negotiation\<close>

text \<open>
  Claim C2. For every pair of capabilities, \<open>negotiate\<close> returns an effective capability
  whose \<open>supported\<close> flag is the conjunction of the two flags (so it is false when either
  side reports false), whose modes are, as a set, the intersection of the two
  \<open>supportedModes\<close>, and whose \<open>maxBinarySize\<close> is the minimum of the two bounds, an
  absent bound counting as unlimited: a size is within the negotiated bound exactly
  when it is within both.
\<close>

theorem negotiate_effective:
  "eff_supported (negotiate l r) = (supported l \<and> supported r) \<and>
   set (effectiveModes (negotiate l r)) = set (supportedModes l) \<inter> set (supportedModes r) \<and>
   eff_maxBinarySize (negotiate l r) =
     (case (maxBinarySize l, maxBinarySize r) of
        (None, None) \<Rightarrow> None
      | (None, Some b) \<Rightarrow> Some b
      | (Some a, None) \<Rightarrow> Some a
      | (Some a, Some b) \<Rightarrow> Some (min a b)) \<and>
   (\<forall>n. withinLimit n (eff_maxBinarySize (negotiate l r)) \<longleftrightarrow>
      withinLimit n (maxBinarySize l) \<and> withinLimit n (maxBinarySize r))"
proof -
  have "eff_maxBinarySize (negotiate l r) = minBound (maxBinarySize l) (maxBinarySize r)"
    by (simp add: negotiate_def)
  then show ?thesis
    by (simp add: negotiate_modes withinLimit_minBound)
      (simp add: negotiate_def minBound_def split: option.splits)
qed

section \<open>The state machine of a transfer\<close>

text \<open>
  Claim C7. The state of the descriptor of a stream id follows
  \<open>Registered \<rightarrow> Active \<rightarrow> {Completed, Aborted}\<close> under every call of the registry: a
  descriptor that appears is \<open>Registered\<close>; no call moves a state backwards in this
  order; \<open>updateProgress\<close> on a descriptor that is not terminal succeeds and leaves it
  \<open>Active\<close>; and a descriptor that has reached \<open>Completed\<close> or \<open>Aborted\<close> is left as it is
  by every sequence of calls, after which \<open>updateProgress\<close> on its id still fails with
  \<open>AlreadyTerminal\<close>.
\<close>

theorem registry_state_machine:
  "(fmlookup reg sid = None \<and> fmlookup (applyCall c reg) sid = Some d'
      \<longrightarrow> state d' = Registered) \<and>
   (fmlookup reg sid = Some d \<and> fmlookup (applyCall c reg) sid = Some d'
      \<longrightarrow> stateRank (state d) \<le> stateRank (state d')) \<and>
   (fmlookup reg sid = Some d \<and> \<not> terminal (state d)
      \<longrightarrow> (\<exists>reg' d'. updateProgress sid n reg = Inr reg' \<and> fmlookup reg' sid = Some d' \<and>
             state d' = Active)) \<and>
   (fmlookup reg sid = Some d \<and> terminal (state d)
      \<longrightarrow> fmlookup (applyCalls cs reg) sid = Some d \<and>
          updateProgress sid n (applyCalls cs reg) = Inl AlreadyTerminal)"
  using applyCall_created [of reg sid c d'] applyCall_forward [of reg sid d c d']
    updateProgress_active [of reg sid d n] applyCalls_terminal [of reg sid d cs]
    updateProgress_terminal [of "applyCalls cs reg" sid d n]
  by blast

theorem registry_state_machine_witness:
  "fmlookup fmempty ''s1'' = (None :: TransferDescriptor option) \<and>
   fmlookup (applyCall (Register exampleDescriptor) fmempty) ''s1''
     = Some (exampleDescriptor\<lparr>state := Registered\<rparr>) \<and>
   updateProgress ''s1'' 4 (fmupd ''s1'' (exampleDescriptor\<lparr>state := Registered\<rparr>) fmempty)
     = Inr (fmupd ''s1'' (exampleDescriptor\<lparr>state := Active, bytesTransferred := 4\<rparr>) fmempty) \<and>
   fmlookup (fmupd ''s1'' exampleDescriptor fmempty) ''s1'' = Some exampleDescriptor \<and>
   terminal (state exampleDescriptor) \<and>
   fmlookup (applyCalls [UpdateProgress ''s1'' 7, Finalize ''s1'' OutcomeAborted,
       Register exampleDescriptor, Reap (\<lambda>_. True)] (fmupd ''s1'' exampleDescriptor fmempty))
       ''s1'' = Some exampleDescriptor \<and>
   updateProgress ''s1'' 9 (applyCalls [UpdateProgress ''s1'' 7, Finalize ''s1'' OutcomeAborted,
       Register exampleDescriptor, Reap (\<lambda>_. True)] (fmupd ''s1'' exampleDescriptor fmempty))
     = Inl AlreadyTerminal"
  using registry_state_machine [of "fmupd ''s1'' exampleDescriptor fmempty" "''s1''"
      "Register exampleDescriptor" exampleDescriptor exampleDescriptor 9
      "[UpdateProgress ''s1'' 7, Finalize ''s1'' OutcomeAborted, Register exampleDescriptor,
        Reap (\<lambda>_. True)]"]
    registry_state_machine [of fmempty "''s1''" "Register exampleDescriptor"
      "exampleDescriptor\<lparr>state := Registered\<rparr>"]
    registry_state_machine [of "fmupd ''s1'' (exampleDescriptor\<lparr>state := Registered\<rparr>) fmempty"
      "''s1''" "UpdateProgress ''s1'' 4" "exampleDescriptor\<lparr>state := Active, bytesTransferred := 4\<rparr>"
      "exampleDescriptor\<lparr>state := Registered\<rparr>" 4]
  by (simp add: exampleDescriptor_def terminal_def register_def updateProgress_def)

section \<open>The header of the stream transport\<close>

text \<open>
  Claim C8. A frame of the stream transport starts with the four magic bytes
  \<open>0x4D 0x43 0x50 0x00\<close>, followed by the four bytes of the version, the sixteen raw
  bytes of the stream id and eight bytes that are the size in little-endian order;
  then come the four bytes of the flags when there are flags, and after the header
  exactly the payload, whose length is the size the header holds. This is for every
  four-byte encoding \<open>enc32\<close> of version and flags, every 16-byte stream id and every
  payload whose length fits the \<open>uint64\<close> size field.
\<close>

theorem stream_frame_layout:
  assumes "\<forall>v. length (enc32 v) = 4" and "length sid = 16" and "length payload < 2 ^ 64"
  shows "take 4 (streamFrame enc32 version sid flags payload) = [0x4D, 0x43, 0x50, 0x00] \<and>
     take 4 (drop 4 (streamFrame enc32 version sid flags payload)) = enc32 version \<and>
     take 16 (drop 8 (streamFrame enc32 version sid flags payload)) = sid \<and>
     length (take 8 (drop 24 (streamFrame enc32 version sid flags payload))) = 8 \<and>
     leValue (take 8 (drop 24 (streamFrame enc32 version sid flags payload))) = length payload \<and>
     (case flags of
        None \<Rightarrow> drop 32 (streamFrame enc32 version sid flags payload) = payload
      | Some fl \<Rightarrow>
          take 4 (drop 32 (streamFrame enc32 version sid flags payload)) = enc32 fl \<and>
          drop 36 (streamFrame enc32 version sid flags payload) = payload)"
proof -
  have sz: "unat (of_nat (length payload) :: 64 word) = length payload"
    using assms(3) by (simp add: unat_of_nat)
  have v: "leValue (leBytes 8 (length payload)) = length payload"
    using assms(3) by (simp only: leValue_leBytes) simp
  have l: "length (leBytes 8 n) = 8" for n
    by (rule length_leBytes)
  show ?thesis
    using assms(1,2) v l
    by (simp add: streamFrame_def encodeHeader_def magic_def sz split: option.split)
qed

theorem stream_frame_layout_witness:
  "(\<forall>v. length (le32 v) = 4) \<and> length exampleStreamId = 16 \<and>
   length [1, 2, 3 :: byte] < 2 ^ 64 \<and>
   take 4 (streamFrame le32 1 exampleStreamId None [1, 2, 3]) = [0x4D, 0x43, 0x50, 0x00] \<and>
   take 16 (drop 8 (streamFrame le32 1 exampleStreamId None [1, 2, 3])) = exampleStreamId \<and>
   leValue (take 8 (drop 24 (streamFrame le32 1 exampleStreamId None [1, 2, 3]))) = 3 \<and>
   drop 32 (streamFrame le32 1 exampleStreamId None [1, 2, 3]) = [1, 2, 3] \<and>
   take 4 (drop 32 (streamFrame le32 1 exampleStreamId (Some 5) [1, 2, 3])) = le32 5 \<and>
   drop 36 (streamFrame le32 1 exampleStreamId (Some 5) [1, 2, 3]) = [1, 2, 3]"
  using stream_frame_layout [of le32 exampleStreamId "[1, 2, 3]" 1 None]
    stream_frame_layout [of le32 exampleStreamId "[1, 2, 3]" 1 "Some 5"]
  by (simp add: le32_def length_leBytes exampleStreamId_def)

section \<open>The base64 overhead\<close>

text \<open>
  Claim C10. For every integer size \<open>n\<close> with \<open>0 \<le> n < 3 * 2\<^sup>5\<^sup>0\<close> (the range on which
  the double arithmetic of the function is exact), \<open>calculateBase64Overhead n\<close> returns
  \<open>\<lceil>4 n / 3\<rceil> - n\<close>; the result is non-negative, it is zero exactly when \<open>n\<close> is zero,
  and it is monotone: a size \<open>m \<le> n\<close> has an overhead \<open>a\<close> that is at most the overhead
  \<open>b\<close> of \<open>n\<close>. The bound is the first size at which the rounded quotient
  \<open>4 n / 3\<close> loses its fraction, see \<open>calculateBase64Overhead_bound_sharp\<close>.
\<close>

theorem calculateBase64Overhead_exact:
  fixes m n :: int
  assumes "0 \<le> m" and "m \<le> n" and "n < 3 * 2 ^ 50"
  shows "\<exists>a b. calculateBase64Overhead (of_int m) = Some a \<and>
           calculateBase64Overhead (of_int n) = Some b \<and>
           b = of_int (\<lceil>(4 * of_int n) / (3::rat)\<rceil> - n) \<and>
           0 \<le> b \<and> (b = 0 \<longleftrightarrow> n = 0) \<and> a \<le> b"
proof -
  have m: "calculateBase64Overhead (of_int m) = Some (of_int (exactOverhead m))"
    using assms by (intro overhead_is_exactOverhead) simp_all
  have n: "calculateBase64Overhead (of_int n) = Some (of_int (exactOverhead n))"
    using assms by (intro overhead_is_exactOverhead) simp_all
  have "0 \<le> exactOverhead n" and "exactOverhead n = 0 \<longleftrightarrow> n = 0"
    and "exactOverhead m \<le> exactOverhead n"
    using assms unfolding exactOverhead_div by presburger+
  with m n show ?thesis
    by (simp add: exactOverhead_def)
qed

theorem calculateBase64Overhead_exact_witness:
  "(0::int) \<le> 5 \<and> (5::int) \<le> 5242880 \<and> (5242880::int) < 3 * 2 ^ 50 \<and>
   calculateBase64Overhead 5242880 = Some 1747627"
proof -
  have "\<lceil>(20971520::rat) / 3\<rceil> = 6990507"
    by (rule ceiling_unique) simp_all
  with calculateBase64Overhead_exact [of 5 5242880] show ?thesis
    by auto
qed

end
